theory Spec2Isabelle
  imports Main
begin

section \<open>The file remover of the client (client/file\_remover.cc)\<close>

text \<open>
  \<open>FileRemover\<close> deletes the entries of a task queue one at a time. It is driven by
  events: the queue builder delivers the queue (\<open>taskQueueReady\<close>) or fails
  (\<open>taskQueueError\<close>), the transport delivers the reply to the one outstanding request
  (\<open>reply\<close>), and the operator answers a raised error (\<open>applyAction\<close>). Each event
  handler is modelled as a function from the object's fields to the updated fields and
  the list of signals it emits, in the order of emission. A handler that ends the process
  (\<open>qFatal\<close>, a failed assertion, a removal from an empty container) returns a fault.
\<close>

subsection \<open>Data\<close>

text \<open>
  Modelled from the spec: the enumeration \<open>FileRemover::Action\<close> is declared in
  client/file\_remover.h, which is not among the sources. The spec names its values
  \<open>Ask\<close>, \<open>Skip\<close>, \<open>SkipAll\<close> and \<open>Abort\<close>; the flag type \<open>Actions\<close> built
  from it is a set of actions.
\<close>

datatype Action = Ask | Abort | Skip | SkipAll

type_synonym Actions = "Action set"

text \<open>
  The reply status of the file transfer protocol. The source names three values; every
  other value of the protocol's enumeration is \<open>STATUS_OTHER\<close> with its number.
\<close>

datatype Status =
    STATUS_SUCCESS
  | STATUS_PATH_NOT_FOUND
  | STATUS_ACCESS_DENIED
  | STATUS_OTHER nat

text \<open>
  A protocol request either carries a remove request with its path or is a request of
  another kind.
\<close>

datatype Request = RemoveRequest string | OtherRequest

fun has_remove_request :: "Request \<Rightarrow> bool" where
  "has_remove_request (RemoveRequest p) = True"
| "has_remove_request OtherRequest = False"

fun remove_request_path :: "Request \<Rightarrow> string" where
  "remove_request_path (RemoveRequest p) = p"
| "remove_request_path OtherRequest = []"

record Reply =
  status :: Status

record FileRemoveTask =
  path :: string

text \<open>
  Modelled from the spec: \<open>FileRequest::removeRequest\<close> is defined in
  client/file\_request.cc, which is not among the sources. By the spec the outgoing
  request carries the target path and is tagged with the slot that the reply is routed
  back to.
\<close>

record FileRequest =
  request_msg :: Request
  reply_slot :: string

definition kReplySlot :: string where
  "kReplySlot = ''reply''"

definition removeRequest :: "string \<Rightarrow> string \<Rightarrow> FileRequest" where
  "removeRequest p slot = \<lparr>request_msg = RemoveRequest p, reply_slot = slot\<rparr>"

text \<open>
  The text of an error. The translation of the two fixed texts (\<open>tr\<close>) and the name of a
  status (\<open>fileStatusToString\<close>, client/file\_status.cc) are not among the sources, so a
  message keeps its parts: the fixed text, or the path and the status it is built from.
\<close>

datatype Message =
    BuilderMessage string
  | UnexpectedAnswer
  | FailedToDelete string Status

text \<open>The signals of the class, with their arguments (the sender is left out).\<close>

datatype Signal =
    started
  | finished
  | progressChanged string int
  | error Actions Message
  | request FileRequest

text \<open>The ways a handler ends the process instead of returning.\<close>

datatype fault =
    UnexpectedAction Action
  | TasksCountZero
  | PopFrontEmpty

text \<open>
  The fields of the object. Modelled from the spec: the fields are declared in
  client/file\_remover.h, which is not among the sources. The spec gives the task sequence,
  its recorded original length and the policy field, initialised to \<open>Ask\<close>. The recorded
  length is assigned from the size of the queue and enters the arithmetic of
  \<open>processTask\<close>, whose result is an \<open>int\<close>; it is a 32-bit \<open>int\<close>, kept in the model
  by its value.
\<close>

record FileRemover =
  tasks :: "FileRemoveTask list"
  failure_action :: Action
  tasks_count :: int

definition initial :: FileRemover where
  "initial = \<lparr>tasks = [], failure_action = Ask, tasks_count = 0\<rparr>"

type_synonym outcome = "fault + FileRemover \<times> Signal list"

subsection \<open>Arithmetic and containers\<close>

text \<open>Division of C++ integers truncates towards zero; the divisor is checked by the caller.\<close>

definition cdiv :: "int \<Rightarrow> int \<Rightarrow> int" where
  "cdiv a b = sgn a * sgn b * (\<bar>a\<bar> div \<bar>b\<bar>)"

text \<open>
  The arithmetic of \<open>int\<close> has 32 bits. A result outside the range is undefined in C++;
  the model takes the value that two's complement hardware leaves, the result wrapped
  into the range.
\<close>

definition wrap32 :: "int \<Rightarrow> int" where
  "wrap32 x = (x + 2 ^ 31) mod 2 ^ 32 - 2 ^ 31"

text \<open>
  The expression \<open>(tasks_count_ - tasks_.size()) * 100 / tasks_count_\<close> of
  \<open>processTask\<close> for the recorded length \<open>n\<close> and the current size \<open>k\<close>, every
  intermediate result an \<open>int\<close>.
\<close>

definition percentage32 :: "int \<Rightarrow> int \<Rightarrow> int" where
  "percentage32 n k = wrap32 (cdiv (wrap32 (wrap32 (n - k) * 100)) n)"

text \<open>Removing the first element of a queue; on an empty queue the container fails.\<close>

fun pop_front :: "'a list \<Rightarrow> fault + 'a list" where
  "pop_front [] = Inl PopFrontEmpty"
| "pop_front (x # xs) = Inr xs"

subsection \<open>The handlers\<close>

text \<open>
  \<open>processTask\<close>: completion on the empty queue; otherwise the assertion on the recorded
  length, the percentage, the progress signal and the request for the front task.
\<close>

definition processTask :: "FileRemover \<Rightarrow> outcome" where
  "processTask s =
     (case tasks s of
        [] \<Rightarrow> Inr (s, [finished])
      | front # _ \<Rightarrow>
          if tasks_count s = 0 then Inl TasksCountZero
          else
            let percentage = percentage32 (tasks_count s) (int (length (tasks s)))
            in Inr (s, [progressChanged (path front) percentage,
                        request (removeRequest (path front) kReplySlot)]))"

definition processNextTask :: "FileRemover \<Rightarrow> outcome" where
  "processNextTask s =
     (if tasks s \<noteq> [] then
        (case pop_front (tasks s) of
           Inl e \<Rightarrow> Inl e
         | Inr rest \<Rightarrow> processTask (s\<lparr>tasks := rest\<rparr>))
      else processTask s)"

fun applyAction :: "FileRemover \<Rightarrow> Action \<Rightarrow> outcome" where
  "applyAction s Skip = processNextTask s"
| "applyAction s SkipAll = processNextTask (s\<lparr>failure_action := SkipAll\<rparr>)"
| "applyAction s Abort = Inr (s, [finished])"
| "applyAction s Ask = Inl (UnexpectedAction Ask)"

definition reply :: "FileRemover \<Rightarrow> Request \<Rightarrow> Reply \<Rightarrow> outcome" where
  "reply s req rep =
     (if \<not> has_remove_request req then Inr (s, [error {Abort} UnexpectedAnswer])
      else if status rep \<noteq> STATUS_SUCCESS then
        (case status rep of
           STATUS_PATH_NOT_FOUND \<Rightarrow>
             if failure_action s \<noteq> Ask then applyAction s (failure_action s)
             else Inr (s, [error {Abort, Skip, SkipAll}
                             (FailedToDelete (remove_request_path req) (status rep))])
         | STATUS_ACCESS_DENIED \<Rightarrow>
             if failure_action s \<noteq> Ask then applyAction s (failure_action s)
             else Inr (s, [error {Abort, Skip, SkipAll}
                             (FailedToDelete (remove_request_path req) (status rep))])
         | _ \<Rightarrow> Inr (s, [error {Abort}
                          (FailedToDelete (remove_request_path req) (status rep))]))
      else processNextTask s)"

definition taskQueueError :: "FileRemover \<Rightarrow> string \<Rightarrow> outcome" where
  "taskQueueError s message = Inr (s, [error {Abort} (BuilderMessage message)])"

text \<open>
  \<open>taskQueueReady\<close> takes the queue from the builder; the builder (client/
  file\_remove\_queue\_builder.cc) is not among the sources, so the queue it holds when it
  signals completion is an argument.
\<close>

definition taskQueueReady :: "FileRemover \<Rightarrow> FileRemoveTask list \<Rightarrow> outcome" where
  "taskQueueReady s taskQueue =
     processTask (s\<lparr>tasks := taskQueue, tasks_count := int (length taskQueue)\<rparr>)"

subsection \<open>Sequences of events\<close>

text \<open>
  The events that reach the object after \<open>start\<close> has created the builder and handed
  it the path and the items (the builder works on its own and is not among the sources),
  and the run of a sequence of them: each event is handled in the state the previous one
  left, and the run keeps the signals of each event apart. A fault ends the run.
\<close>

datatype Event =
    BuilderStarted
  | BuilderRequest FileRequest
  | TaskQueueError string
  | TaskQueueReady "FileRemoveTask list"
  | ReplyEvent Request Reply
  | ApplyAction Action

text \<open>
  \<open>start\<close> connects the builder's signals \<open>started\<close> and \<open>request\<close> to the signals
  of the same names, so these two are passed on as they come; its signals \<open>error\<close> and
  \<open>finished\<close> are connected to \<open>taskQueueError\<close> and \<open>taskQueueReady\<close>.
\<close>

fun handle :: "FileRemover \<Rightarrow> Event \<Rightarrow> outcome" where
  "handle s BuilderStarted = Inr (s, [started])"
| "handle s (BuilderRequest r) = Inr (s, [request r])"
| "handle s (TaskQueueError m) = taskQueueError s m"
| "handle s (TaskQueueReady q) = taskQueueReady s q"
| "handle s (ReplyEvent req rep) = reply s req rep"
| "handle s (ApplyAction a) = applyAction s a"

fun run :: "FileRemover \<Rightarrow> Event list \<Rightarrow> fault + FileRemover \<times> Signal list list" where
  "run s [] = Inr (s, [])"
| "run s (e # es) =
     (case handle s e of
        Inl f \<Rightarrow> Inl f
      | Inr (s', out) \<Rightarrow>
          (case run s' es of
             Inl f \<Rightarrow> Inl f
           | Inr (s'', outs) \<Rightarrow> Inr (s'', out # outs)))"

subsection \<open>Notions used to state the results\<close>

text \<open>The reply of the transport to the request for a task when the removal succeeded.\<close>

definition success_reply :: "FileRemoveTask \<Rightarrow> Event" where
  "success_reply t = ReplyEvent (RemoveRequest (path t)) \<lparr>status = STATUS_SUCCESS\<rparr>"

text \<open>The percentages of the progress signals among a list of signals, in order.\<close>

fun percentages :: "Signal list \<Rightarrow> int list" where
  "percentages [] = []"
| "percentages (progressChanged p n # sigs) = n # percentages sigs"
| "percentages (other # sigs) = percentages sigs"

text \<open>The percentages reported over a whole run; none when the run ended in a fault.\<close>

fun reported :: "fault + FileRemover \<times> Signal list list \<Rightarrow> int list" where
  "reported (Inl f) = []"
| "reported (Inr (s, outs)) = percentages (concat outs)"

fun is_error :: "Signal \<Rightarrow> bool" where
  "is_error (error a m) = True"
| "is_error other = False"

text \<open>The two failures that the source lets the operator skip.\<close>

fun recoverable :: "Status \<Rightarrow> bool" where
  "recoverable STATUS_PATH_NOT_FOUND = True"
| "recoverable STATUS_ACCESS_DENIED = True"
| "recoverable other = False"

fun delivers_queue :: "Event \<Rightarrow> bool" where
  "delivers_queue (TaskQueueReady q) = True"
| "delivers_queue other = False"


text \<open>The recorded length bounds the length of the queue.\<close>

definition consistent :: "FileRemover \<Rightarrow> bool" where
  "consistent s = (int (length (tasks s)) \<le> tasks_count s)"

section \<open>Auxiliary facts\<close>

lemma cdiv_nonneg: "0 \<le> a \<Longrightarrow> 0 < b \<Longrightarrow> cdiv a b = a div b"
  by (simp add: cdiv_def sgn_if)

text \<open>
  As long as the number of completed tasks times 100 stays below \<open>2 ^ 31\<close>, that is
  up to 21474836 completed tasks, the 32-bit evaluation is the quotient of the integers.
\<close>

lemma wrap32_id: "- (2 ^ 31) \<le> x \<Longrightarrow> x < 2 ^ 31 \<Longrightarrow> wrap32 x = x"
  by (simp add: wrap32_def)

lemma percentage32_exact:
  assumes "0 \<le> k" "k \<le> n" "0 < n" "(n - k) * 100 < 2 ^ 31"
  shows "percentage32 n k = (n - k) * 100 div n"
proof -
  have d: "0 \<le> n - k" using assms by simp
  have a: "wrap32 (n - k) = n - k"
    using assms d by (intro wrap32_id) auto
  have b: "wrap32 ((n - k) * 100) = (n - k) * 100"
    using assms d by (intro wrap32_id) auto
  have c0: "0 \<le> (n - k) * 100 div n"
    using assms d by (simp add: pos_imp_zdiv_nonneg_iff)
  have "(n - k) * 100 div n \<le> (n - k) * 100 div 1"
    using assms d by (intro zdiv_mono2) auto
  then have c1: "(n - k) * 100 div n < 2 ^ 31"
    using assms(4) by simp
  have "cdiv ((n - k) * 100) n = (n - k) * 100 div n"
    using assms d by (intro cdiv_nonneg) auto
  then show ?thesis
    using a b c0 c1 by (simp add: percentage32_def wrap32_id)
qed

lemma percentage32_completed:
  assumes "j < n" and "n \<le> 21474837"
  shows "percentage32 (int n) (int (n - j)) = int j * 100 div int n"
proof -
  have "int n - int (n - j) = int j" using assms(1) by simp
  moreover have "int j * 100 < 2 ^ 31" using assms by simp
  ultimately show ?thesis
    using assms(1) percentage32_exact [of "int (n - j)" "int n"] by simp
qed



subsection \<open>The state after each handler\<close>

lemma processTask_state: "processTask s = Inr (s', out) \<Longrightarrow> s' = s"
  by (auto simp: processTask_def Let_def split: list.splits if_splits)

lemma processNextTask_state:
  "processNextTask s = Inr (s', out) \<Longrightarrow> s' = s\<lparr>tasks := drop 1 (tasks s)\<rparr>"
  by (cases "tasks s") (auto simp: processNextTask_def dest: processTask_state)

lemma applyAction_state:
  assumes "applyAction s a = Inr (s', out)"
  shows "tasks_count s' = tasks_count s \<and> length (tasks s') \<le> length (tasks s)"
  using assms by (cases a) (auto dest!: processNextTask_state)

lemma reply_state:
  assumes "reply s req rep = Inr (s', out)"
  shows "tasks_count s' = tasks_count s \<and> length (tasks s') \<le> length (tasks s)"
  using assms
  by (auto simp: reply_def split: if_splits Status.splits
           dest!: processNextTask_state applyAction_state)

lemma handle_keeps_count:
  assumes "handle s e = Inr (s', out)" and "\<not> delivers_queue e"
  shows "tasks_count s' = tasks_count s \<and> length (tasks s') \<le> length (tasks s)"
  using assms
  by (cases e) (auto simp: taskQueueError_def dest: reply_state applyAction_state)

lemma run_keeps_count:
  assumes "run s es = Inr (s', outs)" and "\<not> list_ex delivers_queue es"
  shows "tasks_count s' = tasks_count s \<and> length (tasks s') \<le> length (tasks s)"
  using assms
proof (induction es arbitrary: s outs)
  case Nil
  then show ?case by simp
next
  case (Cons e es)
  from Cons.prems(1) obtain s1 out1 outs1
    where h: "handle s e = Inr (s1, out1)" and r: "run s1 es = Inr (s', outs1)"
    by (auto split: sum.splits prod.splits)
  have e: "\<not> delivers_queue e" and es: "\<not> list_ex delivers_queue es"
    using Cons.prems(2) by simp_all
  from handle_keeps_count [OF h e]
  have "tasks_count s1 = tasks_count s \<and> length (tasks s1) \<le> length (tasks s)" .
  moreover from Cons.IH [OF r es]
  have "tasks_count s' = tasks_count s1 \<and> length (tasks s') \<le> length (tasks s1)" .
  ultimately show ?case by simp
qed





text \<open>
  Consistency holds in the initial state and is kept by every event, the delivery of a
  queue included, so it holds in every state that a run from the initial state reaches.
\<close>

lemma consistent_initial: "consistent initial"
  by (simp add: consistent_def initial_def)



subsection \<open>Handlers in a consistent state\<close>

lemma processTask_consistent:
  assumes "consistent s"
  shows "\<exists>out. processTask s = Inr (s, out) \<and> filter is_error out = []"
  using assms by (cases "tasks s") (auto simp: processTask_def consistent_def)




subsection \<open>A batch in which every removal succeeds\<close>

lemma reply_success_step:
  assumes "tasks s = t # u # us" and "tasks_count s \<noteq> 0"
  shows "reply s (RemoveRequest p) \<lparr>status = STATUS_SUCCESS\<rparr> =
           Inr (s\<lparr>tasks := u # us\<rparr>,
                [progressChanged (path u) (percentage32 (tasks_count s) (int (length (u # us)))),
                 request (removeRequest (path u) kReplySlot)])"
  using assms by (simp add: reply_def processNextTask_def processTask_def)

lemma reply_success_last:
  assumes "tasks s = [t]"
  shows "reply s (RemoveRequest p) \<lparr>status = STATUS_SUCCESS\<rparr> =
           Inr (s\<lparr>tasks := []\<rparr>, [finished])"
  using assms by (simp add: reply_def processNextTask_def processTask_def)

lemma run_success_replies:
  assumes "tasks s = t # ts" and "tasks_count s \<noteq> 0"
  shows "run s (map success_reply (t # ts)) =
           Inr (s\<lparr>tasks := []\<rparr>,
                map (\<lambda>j. [progressChanged (path (ts ! j))
                            (percentage32 (tasks_count s) (int (length ts - j))),
                          request (removeRequest (path (ts ! j)) kReplySlot)]) [0..<length ts]
                @ [[finished]])"
  using assms
proof (induction ts arbitrary: s t)
  case Nil
  then show ?case by (simp add: success_reply_def reply_success_last)
next
  case (Cons u us)
  let ?s' = "s\<lparr>tasks := u # us\<rparr>"
  have step: "handle s (success_reply t) =
      Inr (?s', [progressChanged (path u) (percentage32 (tasks_count s) (int (length (u # us)))),
                 request (removeRequest (path u) kReplySlot)])"
    using Cons.prems by (simp add: success_reply_def reply_success_step)
  have "tasks ?s' = u # us" and "tasks_count ?s' \<noteq> 0"
    using Cons.prems by simp_all
  from Cons.IH [OF this]
  have rest: "run ?s' (map success_reply (u # us)) =
      Inr (s\<lparr>tasks := []\<rparr>,
           map (\<lambda>j. [progressChanged (path (us ! j))
                       (percentage32 (tasks_count s) (int (length us - j))),
                     request (removeRequest (path (us ! j)) kReplySlot)]) [0..<length us]
           @ [[finished]])"
    by simp
  show ?case
    using step rest by (simp add: map_upt_Suc del: upt_Suc)
qed

lemma run_batch_success:
  assumes "q \<noteq> []"
  shows "run s (TaskQueueReady q # map success_reply q) =
           Inr (s\<lparr>tasks := [], tasks_count := int (length q)\<rparr>,
                map (\<lambda>j. [progressChanged (path (q ! j))
                            (percentage32 (int (length q)) (int (length q - j))),
                          request (removeRequest (path (q ! j)) kReplySlot)]) [0..<length q]
                @ [[finished]])"
proof -
  obtain t ts where q: "q = t # ts" using assms by (cases q) auto
  let ?s1 = "s\<lparr>tasks := q, tasks_count := int (length q)\<rparr>"
  have first: "handle s (TaskQueueReady q) =
      Inr (?s1, [progressChanged (path t) (percentage32 (int (length q)) (int (length q))),
                 request (removeRequest (path t) kReplySlot)])"
    by (simp add: q taskQueueReady_def processTask_def)
  have "tasks ?s1 = t # ts" and "tasks_count ?s1 \<noteq> 0"
    by (simp_all add: q)
  from run_success_replies [OF this]
  have rest: "run ?s1 (map success_reply q) =
      Inr (s\<lparr>tasks := [], tasks_count := int (length q)\<rparr>,
           map (\<lambda>j. [progressChanged (path (ts ! j))
                       (percentage32 (int (length q)) (int (length ts - j))),
                     request (removeRequest (path (ts ! j)) kReplySlot)]) [0..<length ts]
           @ [[finished]])"
    by (simp add: q)
  show ?thesis
    using first rest by (simp add: q map_upt_Suc del: upt_Suc)
qed

lemma percentages_progress:
  "percentages (concat (map (\<lambda>j. [progressChanged (g j) (h j), request (r j)]) xs @ [[finished]]))
     = map h xs"
  by (induction xs) simp_all

lemma last_progress_batch:
  assumes "q \<noteq> []"
  shows "last (reported (run s (TaskQueueReady q # map success_reply q))) =
           percentage32 (int (length q)) 1"
proof -
  have pos: "0 < length q" using assms by simp
  have "reported (run s (TaskQueueReady q # map success_reply q)) =
          map (\<lambda>j. percentage32 (int (length q)) (int (length q - j))) [0..<length q]"
    unfolding run_batch_success [OF assms] by (simp only: reported.simps percentages_progress)
  moreover have "last (map (\<lambda>j. percentage32 (int (length q)) (int (length q - j))) [0..<length q])
                   = percentage32 (int (length q)) (int (length q - (length q - 1)))"
    using pos by (cases "length q") simp_all
  moreover have "length q - (length q - 1) = 1" using pos by arith
  ultimately show ?thesis by simp
qed

lemma percentages_bounded_batch:
  assumes "n \<le> 21474837"
  shows "map (\<lambda>j. percentage32 (int n) (int (n - j))) [0..<n] =
         map (\<lambda>j. int j * 100 div int n) [0..<n]"
proof (rule map_cong)
  show "[0..<n] = [0..<n]" by (rule refl)
next
  fix j
  assume "j \<in> set [0..<n]"
  then have "j < n" by simp
  from percentage32_completed [OF this assms]
  show "percentage32 (int n) (int (n - j)) = int j * 100 div int n" .
qed

subsection \<open>The percentage as a function of the number of completed tasks\<close>

lemma pct_mono: "0 < N \<Longrightarrow> i \<le> j \<Longrightarrow> int i * 100 div N \<le> int j * 100 div N"
  by (simp add: zdiv_mono1)

lemma pct_strict:
  assumes "0 < N" "N \<le> 100" "i < j"
  shows "int i * 100 div N < int j * 100 div N"
proof -
  have "int i * 100 div N + 1 = (int i * 100 + N) div N"
    using assms(1) by (simp add: add.commute div_add_self1)
  also have "\<dots> \<le> int j * 100 div N"
    using assms by (intro zdiv_mono1) auto
  finally show ?thesis by simp
qed

lemma pct_below:
  assumes "i < n"
  shows "int i * 100 div int n < 100"
proof -
  have "i * 100 div n < 100"
    using assms by (intro less_mult_imp_div_less) simp
  then have "int (i * 100 div n) < 100" by simp
  then show ?thesis by (simp add: zdiv_int)
qed

lemma pct_nonneg: "0 \<le> int i * 100 div int n"
proof -
  have "0 \<le> int (i * 100 div n)" by simp
  then show ?thesis by (simp add: zdiv_int)
qed

lemma sorted_pct: "0 < N \<Longrightarrow> sorted (map (\<lambda>j. int j * 100 div N) [0..<n])"
  by (simp add: sorted_map sorted_wrt_iff_nth_less pct_mono)

lemma strict_sorted_pct:
  "0 < N \<Longrightarrow> N \<le> 100 \<Longrightarrow> sorted_wrt (<) (map (\<lambda>j. int j * 100 div N) [0..<n])"
  by (simp add: sorted_wrt_map sorted_wrt_iff_nth_less pct_strict)

lemma bounded_pct:
  "list_all (\<lambda>p. 0 \<le> p \<and> p < 100) (map (\<lambda>j. int j * 100 div int n) [0..<n])"
  by (simp add: list_all_iff pct_below pct_nonneg)

lemma last_pct:
  "0 < n \<Longrightarrow> last (map (\<lambda>j. int j * 100 div int n) [0..<n]) = (int n - 1) * 100 div int n"
  by (cases n) (simp_all add: algebra_simps)

section \<open>Results\<close>

subsection \<open>Progress over a batch without failures\<close>

text \<open>
  C1, as the code has it. The queue \<open>q\<close> of length \<open>N > 0\<close> is delivered and the request
  for each task is answered with success. The signals of the run are, for each task
  \<open>j = 0, \<dots>, N - 1\<close> in order, the progress signal for the path of task \<open>j\<close> with the
  percentage that \<open>processTask\<close> computes when \<open>N - j\<close> tasks are left, followed by the
  request for that path, and then, in answer to the last reply, the completion signal
  alone. So progress is reported exactly \<open>N\<close> times. For \<open>N \<le> 21474837\<close>, where no
  product overflows, the percentage for task \<open>j\<close> is \<open>j * 100 div N\<close>: the percentages
  never decrease, they increase strictly when \<open>N \<le> 100\<close>, they all lie from 0 to below
  100, and the last one is \<open>(N - 1) * 100 div N\<close>: the value 100 is not reported.
  Nothing is said about the percentages of longer queues.
\<close>

theorem all_success_progress:
  assumes "q \<noteq> []"
  shows "\<exists>outs.
           run s (TaskQueueReady q # map success_reply q) =
             Inr (s\<lparr>tasks := [], tasks_count := int (length q)\<rparr>, outs) \<and>
           outs = map (\<lambda>j. [progressChanged (path (q ! j))
                               (percentage32 (int (length q)) (int (length q - j))),
                             request (removeRequest (path (q ! j)) kReplySlot)]) [0..<length q]
                  @ [[finished]] \<and>
           length (percentages (concat outs)) = length q \<and>
           last outs = [finished] \<and>
           (length q \<le> 21474837 \<longrightarrow>
              percentages (concat outs) =
                map (\<lambda>j. int j * 100 div int (length q)) [0..<length q] \<and>
              sorted (percentages (concat outs)) \<and>
              (length q \<le> 100 \<longrightarrow> sorted_wrt (<) (percentages (concat outs))) \<and>
              list_all (\<lambda>p. 0 \<le> p \<and> p < 100) (percentages (concat outs)) \<and>
              last (percentages (concat outs)) = (int (length q) - 1) * 100 div int (length q))"
proof -
  let ?outs = "map (\<lambda>j. [progressChanged (path (q ! j))
                           (percentage32 (int (length q)) (int (length q - j))),
                         request (removeRequest (path (q ! j)) kReplySlot)]) [0..<length q]
               @ [[finished]]"
  let ?ps = "map (\<lambda>j. int j * 100 div int (length q)) [0..<length q]"
  have pos: "0 < length q" using assms by simp
  have r: "run s (TaskQueueReady q # map success_reply q) =
             Inr (s\<lparr>tasks := [], tasks_count := int (length q)\<rparr>, ?outs)"
    by (rule run_batch_success [OF assms])
  have p32: "percentages (concat ?outs) =
               map (\<lambda>j. percentage32 (int (length q)) (int (length q - j))) [0..<length q]"
    by (rule percentages_progress)
  have n: "length (percentages (concat ?outs)) = length q"
    unfolding p32 by simp
  have l: "last ?outs = [finished]" by simp
  have b: "length q \<le> 21474837 \<longrightarrow>
             percentages (concat ?outs) = ?ps \<and>
             sorted (percentages (concat ?outs)) \<and>
             (length q \<le> 100 \<longrightarrow> sorted_wrt (<) (percentages (concat ?outs))) \<and>
             list_all (\<lambda>p. 0 \<le> p \<and> p < 100) (percentages (concat ?outs)) \<and>
             last (percentages (concat ?outs)) = (int (length q) - 1) * 100 div int (length q)"
  proof
    assume small: "length q \<le> 21474837"
    have p: "percentages (concat ?outs) = ?ps"
      unfolding p32 by (rule percentages_bounded_batch [OF small])
    have "sorted ?ps"
      using pos by (intro sorted_pct) simp
    moreover have "length q \<le> 100 \<longrightarrow> sorted_wrt (<) ?ps"
      using pos by (auto intro!: strict_sorted_pct)
    moreover have "list_all (\<lambda>p. 0 \<le> p \<and> p < 100) ?ps"
      by (rule bounded_pct)
    moreover have "last ?ps = (int (length q) - 1) * 100 div int (length q)"
      using pos by (rule last_pct)
    ultimately show "percentages (concat ?outs) = ?ps \<and>
             sorted (percentages (concat ?outs)) \<and>
             (length q \<le> 100 \<longrightarrow> sorted_wrt (<) (percentages (concat ?outs))) \<and>
             list_all (\<lambda>p. 0 \<le> p \<and> p < 100) (percentages (concat ?outs)) \<and>
             last (percentages (concat ?outs)) = (int (length q) - 1) * 100 div int (length q)"
      unfolding p by blast
  qed
  from r n l b show ?thesis by blast
qed

theorem all_success_progress_witness:
  "[\<lparr>path = ''A''\<rparr>, \<lparr>path = ''B''\<rparr>, \<lparr>path = ''C''\<rparr>] \<noteq> [] \<and>
   length [\<lparr>path = ''A''\<rparr>, \<lparr>path = ''B''\<rparr>, \<lparr>path = ''C''\<rparr>] \<le> 100 \<and>
   run initial (TaskQueueReady [\<lparr>path = ''A''\<rparr>, \<lparr>path = ''B''\<rparr>, \<lparr>path = ''C''\<rparr>] #
                map success_reply [\<lparr>path = ''A''\<rparr>, \<lparr>path = ''B''\<rparr>, \<lparr>path = ''C''\<rparr>]) =
     Inr (\<lparr>tasks = [], failure_action = Ask, tasks_count = 3\<rparr>,
          [[progressChanged ''A'' 0, request (removeRequest ''A'' kReplySlot)],
           [progressChanged ''B'' 33, request (removeRequest ''B'' kReplySlot)],
           [progressChanged ''C'' 66, request (removeRequest ''C'' kReplySlot)],
           [finished]])"
  using all_success_progress
          [of "[\<lparr>path = ''A''\<rparr>, \<lparr>path = ''B''\<rparr>, \<lparr>path = ''C''\<rparr>]" initial]
  by (simp add: initial_def percentage32_def wrap32_def cdiv_def)

text \<open>
  C1 as stated fails on a queue of 101 tasks, all removed with success: the first two
  percentages reported are both 0, so the values do not increase strictly, and the last
  one is 99, not 100.
\<close>

theorem all_success_progress_counterexample:
  "reported (run initial (TaskQueueReady (replicate 101 \<lparr>path = ''f''\<rparr>) #
                          map success_reply (replicate 101 \<lparr>path = ''f''\<rparr>))) ! 0 = 0 \<and>
   reported (run initial (TaskQueueReady (replicate 101 \<lparr>path = ''f''\<rparr>) #
                          map success_reply (replicate 101 \<lparr>path = ''f''\<rparr>))) ! 1 = 0 \<and>
   last (reported (run initial (TaskQueueReady (replicate 101 \<lparr>path = ''f''\<rparr>) #
                                map success_reply (replicate 101 \<lparr>path = ''f''\<rparr>)))) = 99 \<and>
   \<not> sorted_wrt (<)
       (reported (run initial (TaskQueueReady (replicate 101 \<lparr>path = ''f''\<rparr>) #
                               map success_reply (replicate 101 \<lparr>path = ''f''\<rparr>))))"
  by code_simp

subsection \<open>The percentage\<close>

text \<open>
  In a state whose queue is not empty, with \<open>i\<close> tasks removed from a queue whose
  recorded length is \<open>N\<close>, the recorded length is not zero, so \<open>processTask\<close> does not
  fail; and as long as \<open>i * 100\<close> is below \<open>2 ^ 31\<close> it reports the percentage
  \<open>i * 100 div N\<close> for the front task.
\<close>

lemma processTask_percentage:
  assumes "tasks s \<noteq> []" and "tasks_count s = int i + int (length (tasks s))"
      and "int i * 100 < 2 ^ 31"
  shows "tasks_count s \<noteq> 0 \<and>
         processTask s =
           Inr (s, [progressChanged (path (hd (tasks s))) (int i * 100 div tasks_count s),
                    request (removeRequest (path (hd (tasks s))) kReplySlot)])"
proof -
  obtain t ts where ts: "tasks s = t # ts" using assms(1) by (cases "tasks s") auto
  have n: "0 < tasks_count s" using assms(2) ts by simp
  have "percentage32 (tasks_count s) (int (length (tasks s))) =
          (tasks_count s - int (length (tasks s))) * 100 div tasks_count s"
    using assms(2,3) n by (intro percentage32_exact) simp_all
  then have "percentage32 (tasks_count s) (int (length (tasks s))) = int i * 100 div tasks_count s"
    using assms(2) by simp
  then show ?thesis
    using n ts by (simp add: processTask_def)
qed

text \<open>
  C2 fails on the code. A queue of 21474838 tasks is delivered and every removal
  succeeds. Before the last task \<open>i = 21474837\<close> tasks are removed; the product
  \<open>i * 100\<close> is 2147483700 and does not fit into an \<open>int\<close>, and the percentage
  reported for the last task is \<open>- 99\<close>, whereas \<open>i * 100 div N\<close> is 99. The
  second part is the step that reports it: two tasks are left, the reply for the front
  one reports success, the front task is removed and \<open>processTask\<close> reports \<open>- 99\<close>
  for the last one. The recorded length is not zero and nothing is divided by zero.
\<close>

theorem percentage_overflow:
  "last (reported (run initial (TaskQueueReady (replicate 21474838 \<lparr>path = ''f''\<rparr>) #
                                map success_reply (replicate 21474838 \<lparr>path = ''f''\<rparr>))))
     = - 99 \<and>
   reply \<lparr>tasks = [\<lparr>path = ''f''\<rparr>, \<lparr>path = ''f''\<rparr>], failure_action = Ask,
          tasks_count = 21474838\<rparr>
       (RemoveRequest ''f'') \<lparr>status = STATUS_SUCCESS\<rparr> =
     Inr (\<lparr>tasks = [\<lparr>path = ''f''\<rparr>], failure_action = Ask, tasks_count = 21474838\<rparr>,
          [progressChanged ''f'' (- 99), request (removeRequest ''f'' kReplySlot)]) \<and>
   (21474837 :: int) * 100 div 21474838 = 99 \<and>
   (21474837 :: int) * 100 \<ge> 2 ^ 31"
proof -
  have ne: "replicate 21474838 \<lparr>path = ''f''\<rparr> \<noteq> []" by simp
  have "percentage32 (int (length (replicate 21474838 \<lparr>path = ''f''\<rparr>))) 1 = - 99"
    by (simp add: percentage32_def wrap32_def cdiv_def)
  with last_progress_batch [OF ne, of initial]
  have whole: "last (reported (run initial
                 (TaskQueueReady (replicate 21474838 \<lparr>path = ''f''\<rparr>) #
                  map success_reply (replicate 21474838 \<lparr>path = ''f''\<rparr>)))) = - 99"
    by simp
  have step: "reply \<lparr>tasks = [\<lparr>path = ''f''\<rparr>, \<lparr>path = ''f''\<rparr>], failure_action = Ask,
          tasks_count = 21474838\<rparr>
       (RemoveRequest ''f'') \<lparr>status = STATUS_SUCCESS\<rparr> =
     Inr (\<lparr>tasks = [\<lparr>path = ''f''\<rparr>], failure_action = Ask, tasks_count = 21474838\<rparr>,
          [progressChanged ''f'' (- 99), request (removeRequest ''f'' kReplySlot)])"
    by (simp add: reply_def processNextTask_def processTask_def percentage32_def wrap32_def
          cdiv_def)
  have "(21474837 :: int) * 100 div 21474838 = 99 \<and> (21474837 :: int) * 100 \<ge> 2 ^ 31"
    by simp
  with whole step show ?thesis by blast
qed

subsection \<open>The empty queue\<close>

text \<open>
  C3. When the builder delivers the empty queue, \<open>taskQueueReady\<close> emits the completion
  signal and nothing else: no request is emitted.
\<close>

theorem empty_queue_finishes:
  "taskQueueReady s [] = Inr (s\<lparr>tasks := [], tasks_count := 0\<rparr>, [finished])"
  by (simp add: taskQueueReady_def processTask_def)

subsection \<open>The answers of the operator\<close>



text \<open>
  C5. In a consistent state with a front task and the policy \<open>Ask\<close>, a recoverable
  failure of the front task raises an error that offers \<open>Abort\<close>, \<open>Skip\<close> and
  \<open>SkipAll\<close> and leaves the state as it is. The answer \<open>Skip\<close> then removes the front
  task and nothing else, the policy is still \<open>Ask\<close>, and processing goes on with the
  rest of the queue: completion when nothing is left, otherwise the progress signal and
  the request for the next task. No request for the skipped task is emitted again.
\<close>

theorem skip_drops_one:
  assumes "tasks s = t # rest" and "failure_action s = Ask"
      and "int (length (tasks s)) \<le> tasks_count s" and "recoverable st"
  shows "reply s (RemoveRequest (path t)) \<lparr>status = st\<rparr> =
           Inr (s, [error {Abort, Skip, SkipAll} (FailedToDelete (path t) st)]) \<and>
         applyAction s Skip =
           Inr (s\<lparr>tasks := rest\<rparr>,
                case rest of
                  [] \<Rightarrow> [finished]
                | next_task # _ \<Rightarrow>
                    [progressChanged (path next_task)
                       (percentage32 (tasks_count s) (int (length rest))),
                     request (removeRequest (path next_task) kReplySlot)]) \<and>
         failure_action (s\<lparr>tasks := rest\<rparr>) = Ask"
proof -
  have "reply s (RemoveRequest (path t)) \<lparr>status = st\<rparr> =
           Inr (s, [error {Abort, Skip, SkipAll} (FailedToDelete (path t) st)])"
    using assms(2,4) by (cases st) (simp_all add: reply_def)
  moreover have "applyAction s Skip =
           Inr (s\<lparr>tasks := rest\<rparr>,
                case rest of
                  [] \<Rightarrow> [finished]
                | next_task # _ \<Rightarrow>
                    [progressChanged (path next_task)
                       (percentage32 (tasks_count s) (int (length rest))),
                     request (removeRequest (path next_task) kReplySlot)])"
    using assms(1,3)
    by (cases rest) (simp_all add: processNextTask_def processTask_def)
  ultimately show ?thesis using assms(2) by simp
qed

theorem skip_drops_one_witness:
  "tasks \<lparr>tasks = [\<lparr>path = ''B''\<rparr>, \<lparr>path = ''C''\<rparr>], failure_action = Ask, tasks_count = 3\<rparr>
     = \<lparr>path = ''B''\<rparr> # [\<lparr>path = ''C''\<rparr>] \<and>
   failure_action \<lparr>tasks = [\<lparr>path = ''B''\<rparr>, \<lparr>path = ''C''\<rparr>],
                   failure_action = Ask, tasks_count = 3\<rparr> = Ask \<and>
   int (length (tasks \<lparr>tasks = [\<lparr>path = ''B''\<rparr>, \<lparr>path = ''C''\<rparr>],
                       failure_action = Ask, tasks_count = 3\<rparr>)) \<le> 3 \<and>
   recoverable STATUS_ACCESS_DENIED \<and>
   reply \<lparr>tasks = [\<lparr>path = ''B''\<rparr>, \<lparr>path = ''C''\<rparr>], failure_action = Ask, tasks_count = 3\<rparr>
       (RemoveRequest ''B'') \<lparr>status = STATUS_ACCESS_DENIED\<rparr> =
     Inr (\<lparr>tasks = [\<lparr>path = ''B''\<rparr>, \<lparr>path = ''C''\<rparr>], failure_action = Ask, tasks_count = 3\<rparr>,
          [error {Abort, Skip, SkipAll} (FailedToDelete ''B'' STATUS_ACCESS_DENIED)]) \<and>
   applyAction \<lparr>tasks = [\<lparr>path = ''B''\<rparr>, \<lparr>path = ''C''\<rparr>], failure_action = Ask, tasks_count = 3\<rparr>
       Skip =
     Inr (\<lparr>tasks = [\<lparr>path = ''C''\<rparr>], failure_action = Ask, tasks_count = 3\<rparr>,
          [progressChanged ''C'' 66, request (removeRequest ''C'' kReplySlot)])"
  using skip_drops_one
          [of "\<lparr>tasks = [\<lparr>path = ''B''\<rparr>, \<lparr>path = ''C''\<rparr>], failure_action = Ask, tasks_count = 3\<rparr>"
              "\<lparr>path = ''B''\<rparr>" "[\<lparr>path = ''C''\<rparr>]" STATUS_ACCESS_DENIED]
  by (simp add: percentage32_def wrap32_def cdiv_def)

text \<open>
  C6. In every state, whatever the queue holds, the answer \<open>Abort\<close> emits the completion
  signal and nothing else, so no request, and leaves the state as it is: no task is
  removed from the queue.
\<close>

theorem abort_finishes: "applyAction s Abort = Inr (s, [finished])"
  by simp

subsection \<open>Errors that only allow aborting\<close>

text \<open>
  C7. For a reply whose status is neither \<open>STATUS_SUCCESS\<close> nor
  \<open>STATUS_PATH_NOT_FOUND\<close> nor \<open>STATUS_ACCESS_DENIED\<close>, \<open>reply\<close> emits one error
  signal whose set of allowed actions is \<open>{Abort}\<close>, whatever the request and the state,
  and leaves the state as it is; \<open>Skip\<close> and \<open>SkipAll\<close> are not in that set.
\<close>

theorem unclassified_abort_only:
  assumes "status rep \<notin> {STATUS_SUCCESS, STATUS_PATH_NOT_FOUND, STATUS_ACCESS_DENIED}"
  shows "reply s req rep =
           Inr (s, [error {Abort}
                      (if has_remove_request req
                       then FailedToDelete (remove_request_path req) (status rep)
                       else UnexpectedAnswer)]) \<and>
         Skip \<notin> {Abort} \<and> SkipAll \<notin> {Abort}"
  using assms by (cases "status rep") (simp_all add: reply_def)

theorem unclassified_abort_only_witness:
  "status \<lparr>status = STATUS_OTHER 7\<rparr>
     \<notin> {STATUS_SUCCESS, STATUS_PATH_NOT_FOUND, STATUS_ACCESS_DENIED} \<and>
   reply \<lparr>tasks = [\<lparr>path = ''B''\<rparr>], failure_action = SkipAll, tasks_count = 2\<rparr>
       (RemoveRequest ''B'') \<lparr>status = STATUS_OTHER 7\<rparr> =
     Inr (\<lparr>tasks = [\<lparr>path = ''B''\<rparr>], failure_action = SkipAll, tasks_count = 2\<rparr>,
          [error {Abort} (FailedToDelete ''B'' (STATUS_OTHER 7))])"
  using unclassified_abort_only
          [of "\<lparr>status = STATUS_OTHER 7\<rparr>"
              "\<lparr>tasks = [\<lparr>path = ''B''\<rparr>], failure_action = SkipAll, tasks_count = 2\<rparr>"
              "RemoveRequest ''B''"]
  by simp

text \<open>
  C8. When the request that \<open>reply\<close> is called with is not a removal request, \<open>reply\<close>
  emits one error signal whose set of allowed actions is \<open>{Abort}\<close> and returns the
  state as it was: the queue, the recorded length and the policy are the same, and no
  task is removed.
\<close>

theorem wrong_request_kind:
  assumes "\<not> has_remove_request req"
  shows "reply s req rep = Inr (s, [error {Abort} UnexpectedAnswer])"
  using assms by (simp add: reply_def)

theorem wrong_request_kind_witness:
  "\<not> has_remove_request OtherRequest \<and>
   reply \<lparr>tasks = [\<lparr>path = ''B''\<rparr>], failure_action = SkipAll, tasks_count = 2\<rparr>
       OtherRequest \<lparr>status = STATUS_SUCCESS\<rparr> =
     Inr (\<lparr>tasks = [\<lparr>path = ''B''\<rparr>], failure_action = SkipAll, tasks_count = 2\<rparr>,
          [error {Abort} UnexpectedAnswer])"
  using wrong_request_kind
          [of OtherRequest
              "\<lparr>tasks = [\<lparr>path = ''B''\<rparr>], failure_action = SkipAll, tasks_count = 2\<rparr>"
              "\<lparr>status = STATUS_SUCCESS\<rparr>"]
  by simp

subsection \<open>The recorded length\<close>

text \<open>
  C9. \<open>taskQueueReady\<close> stores the queue and records its length, without a fault. After
  any sequence of later events in which the builder does not deliver a queue again
  (replies, answers of the operator, errors of the builder) and which ends without a
  fault, the recorded length is still the length of the delivered queue, and the
  current queue is not longer than it.
\<close>

theorem tasks_count_fixed:
  assumes "\<not> list_ex delivers_queue es"
      and "run (s\<lparr>tasks := q, tasks_count := int (length q)\<rparr>) es = Inr (s', outs)"
  shows "(\<exists>out. taskQueueReady s q = Inr (s\<lparr>tasks := q, tasks_count := int (length q)\<rparr>, out)) \<and>
         tasks_count s' = int (length q) \<and>
         int (length (tasks s')) \<le> tasks_count s'"
proof -
  let ?s1 = "s\<lparr>tasks := q, tasks_count := int (length q)\<rparr>"
  have "consistent ?s1" by (simp add: consistent_def)
  from processTask_consistent [OF this]
  have "\<exists>out. taskQueueReady s q = Inr (?s1, out)"
    by (auto simp: taskQueueReady_def)
  moreover from run_keeps_count [OF assms(2) assms(1)]
  have "tasks_count s' = int (length q) \<and> length (tasks s') \<le> length q" by simp
  ultimately show ?thesis by simp
qed

theorem tasks_count_fixed_witness:
  "\<not> list_ex delivers_queue
       [ReplyEvent (RemoveRequest ''A'') \<lparr>status = STATUS_SUCCESS\<rparr>,
        ReplyEvent (RemoveRequest ''B'') \<lparr>status = STATUS_ACCESS_DENIED\<rparr>,
        ApplyAction Skip] \<and>
   run \<lparr>tasks = [\<lparr>path = ''A''\<rparr>, \<lparr>path = ''B''\<rparr>, \<lparr>path = ''C''\<rparr>],
        failure_action = Ask, tasks_count = 3\<rparr>
       [ReplyEvent (RemoveRequest ''A'') \<lparr>status = STATUS_SUCCESS\<rparr>,
        ReplyEvent (RemoveRequest ''B'') \<lparr>status = STATUS_ACCESS_DENIED\<rparr>,
        ApplyAction Skip] =
     Inr (\<lparr>tasks = [\<lparr>path = ''C''\<rparr>], failure_action = Ask, tasks_count = 3\<rparr>,
          [[progressChanged ''B'' 33, request (removeRequest ''B'' kReplySlot)],
           [error {Abort, Skip, SkipAll} (FailedToDelete ''B'' STATUS_ACCESS_DENIED)],
           [progressChanged ''C'' 66, request (removeRequest ''C'' kReplySlot)]]) \<and>
   taskQueueReady initial [\<lparr>path = ''A''\<rparr>, \<lparr>path = ''B''\<rparr>, \<lparr>path = ''C''\<rparr>] =
     Inr (\<lparr>tasks = [\<lparr>path = ''A''\<rparr>, \<lparr>path = ''B''\<rparr>, \<lparr>path = ''C''\<rparr>],
           failure_action = Ask, tasks_count = 3\<rparr>,
          [progressChanged ''A'' 0, request (removeRequest ''A'' kReplySlot)]) \<and>
   tasks_count \<lparr>tasks = [\<lparr>path = ''C''\<rparr>], failure_action = Ask, tasks_count = 3\<rparr> = 3 \<and>
   int (length (tasks \<lparr>tasks = [\<lparr>path = ''C''\<rparr>], failure_action = Ask, tasks_count = 3\<rparr>)) \<le> 3"
proof -
  have r: "run (initial\<lparr>tasks := [\<lparr>path = ''A''\<rparr>, \<lparr>path = ''B''\<rparr>, \<lparr>path = ''C''\<rparr>],
                        tasks_count := int (length [\<lparr>path = ''A''\<rparr>, \<lparr>path = ''B''\<rparr>,
                                                    \<lparr>path = ''C''\<rparr>])\<rparr>)
       [ReplyEvent (RemoveRequest ''A'') \<lparr>status = STATUS_SUCCESS\<rparr>,
        ReplyEvent (RemoveRequest ''B'') \<lparr>status = STATUS_ACCESS_DENIED\<rparr>,
        ApplyAction Skip] =
     Inr (\<lparr>tasks = [\<lparr>path = ''C''\<rparr>], failure_action = Ask, tasks_count = 3\<rparr>,
          [[progressChanged ''B'' 33, request (removeRequest ''B'' kReplySlot)],
           [error {Abort, Skip, SkipAll} (FailedToDelete ''B'' STATUS_ACCESS_DENIED)],
           [progressChanged ''C'' 66, request (removeRequest ''C'' kReplySlot)]])"
    by (simp add: initial_def reply_def processNextTask_def processTask_def percentage32_def wrap32_def cdiv_def)
  have h: "\<not> list_ex delivers_queue
       [ReplyEvent (RemoveRequest ''A'') \<lparr>status = STATUS_SUCCESS\<rparr>,
        ReplyEvent (RemoveRequest ''B'') \<lparr>status = STATUS_ACCESS_DENIED\<rparr>,
        ApplyAction Skip]"
    by simp
  show ?thesis
    using tasks_count_fixed [OF h r] h r
    by (simp add: initial_def taskQueueReady_def processTask_def percentage32_def wrap32_def cdiv_def)
qed

subsection \<open>Advancing on the empty queue\<close>

text \<open>
  C10. On the empty queue, advancing past the current task does not fail: the removal
  from the queue is not attempted, and \<open>processNextTask\<close>, the answers \<open>Skip\<close> and
  \<open>SkipAll\<close> and a reply that reports success each emit the completion signal alone
  and leave the queue empty.
\<close>

theorem advance_on_empty:
  assumes "tasks s = []"
  shows "processNextTask s = Inr (s, [finished]) \<and>
         applyAction s Skip = Inr (s, [finished]) \<and>
         applyAction s SkipAll = Inr (s\<lparr>failure_action := SkipAll\<rparr>, [finished]) \<and>
         reply s (RemoveRequest p) \<lparr>status = STATUS_SUCCESS\<rparr> = Inr (s, [finished])"
  using assms by (simp add: processNextTask_def processTask_def reply_def)

theorem advance_on_empty_witness:
  "tasks initial = [] \<and>
   processNextTask initial = Inr (initial, [finished]) \<and>
   applyAction initial Skip = Inr (initial, [finished]) \<and>
   applyAction initial SkipAll = Inr (initial\<lparr>failure_action := SkipAll\<rparr>, [finished]) \<and>
   reply initial (RemoveRequest ''A'') \<lparr>status = STATUS_SUCCESS\<rparr> = Inr (initial, [finished])"
proof -
  have h: "tasks initial = []" by (simp add: initial_def)
  show ?thesis using advance_on_empty [OF h, of "''A''"] h by simp
qed

end
